theory Spec2Isabelle
  imports Main "HOL-Library.Word" "HOL-Library.Sublist" "HOL-Library.Multiset" "HOL-Library.AList"
begin

section \<open>Data model of \<open>main.go\<close>\<close>

text \<open>
  The release workflow builds the program for \<open>linux/amd64\<close> and \<open>windows/amd64\<close>, so Go's
  \<open>int\<close> is 64 bits wide, like \<open>int64\<close>. Both are 64-bit words here: \<open>+\<close> wraps around as
  Go's signed addition does, and \<open>sint\<close> reads the signed value. Go strings are byte
  sequences, so a \<open>string\<close> (a list of 8-bit characters) holds the bytes of the UTF-8 text.
\<close>

record DeleteCountRecord =
  DeveloperName :: string
  TableEnumOrId :: string
  QualifiedApiName :: string
  ApiName :: string
  Count :: "64 word"
  Timestamp :: "64 word"

text \<open>\<open>LastCount\<close>: its field \<open>Count\<close> is \<open>Count_lc\<close> here, the name \<open>Count\<close> being taken.\<close>

record LastCount =
  Date :: string
  Count_lc :: "64 word"

record ExportData =
  Results :: "DeleteCountRecord list"
  LastRunCount :: "LastCount list"

text \<open>
  Every way the process ends early: \<open>log.Fatal\<close> and \<open>log.Fatalf\<close> (named after the step that
  failed) and the runtime panic of an index out of range.
\<close>

datatype failure =
    QueryFileReadFailed
  | CommandFailed string
  | JSONUnmarshalFailed
  | ResultNotMap
  | TotalSizeNotFloat
  | IndexOutOfRange
  | OpenFailed
  | DecodeFailed
  | CreateFailed
  | EncodeFailed
  | MD5Failed

section \<open>The \<open>strings\<close> functions the program calls\<close>

definition HasPrefix :: "string \<Rightarrow> string \<Rightarrow> bool" where
  "HasPrefix s p = prefix p s"

definition HasSuffix :: "string \<Rightarrow> string \<Rightarrow> bool" where
  "HasSuffix s p = suffix p s"

text \<open>\<open>strings.Contains s substr\<close>: some position of \<open>s\<close> starts with \<open>substr\<close>.\<close>

fun Contains :: "string \<Rightarrow> string \<Rightarrow> bool" where
  "Contains [] substr = (substr = [])"
| "Contains (c # s) substr = (prefix substr (c # s) \<or> Contains s substr)"

text \<open>
  \<open>strings.Split s sep\<close> for a separator of one byte: the pieces between the separators,
  always at least one piece (\<open>Split "" sep\<close> is the one empty string).
\<close>

fun Split :: "string \<Rightarrow> char \<Rightarrow> string list" where
  "Split [] sep = [[]]"
| "Split (c # s) sep =
     (if c = sep then [] # Split s sep
      else (case Split s sep of [] \<Rightarrow> [[c]] | piece # pieces \<Rightarrow> (c # piece) # pieces))"

text \<open>\<open>strings.Index s sep\<close> for a separator of one byte: the first position, or \<open>-1\<close>.\<close>

fun Index :: "string \<Rightarrow> char \<Rightarrow> int" where
  "Index [] sep = -1"
| "Index (c # s) sep =
     (if c = sep then 0 else (let i = Index s sep in if i = -1 then -1 else i + 1))"

text \<open>\<open>strings.ReplaceAll s old new\<close> for an \<open>old\<close> of one byte.\<close>

definition ReplaceAll :: "string \<Rightarrow> char \<Rightarrow> string \<Rightarrow> string" where
  "ReplaceAll s old new = concat (map (\<lambda>c. if c = old then new else [c]) s)"

text \<open>Indexing a slice: Go panics when the index is not below the length.\<close>

definition at :: "'a list \<Rightarrow> nat \<Rightarrow> failure + 'a" where
  "at xs i = (if i < length xs then Inr (xs ! i) else Inl IndexOutOfRange)"

section \<open>What the program takes from outside\<close>

text \<open>
  The aggregation reads the clock, formats dates in the local time zone, ranges over a Go
  map (in an order the language leaves open) and reads and writes JSON with
  \<open>encoding/json\<close>. None of this is code of the repository: it is a parameter.
  \<^item> \<open>todayDate\<close> is \<open>time.Now().Format("2006-01-02")\<close>;
  \<^item> \<open>formatDate t\<close> is \<open>time.Unix(t, 0).Format("2006-01-02")\<close>;
  \<^item> \<open>rangeOrder\<close> lists the entries of the map \<open>counts\<close> in the order the \<open>range\<close> loop
    visits them; the argument holds them in the order of their first insertion;
  \<^item> \<open>decodeJSON\<close> is \<open>json.NewDecoder(file).Decode(&exportData)\<close> on the bytes of a file
    (\<open>None\<close> when it returns an error), \<open>encodeJSON\<close> the bytes that
    \<open>encoder.Encode(exportData)\<close> writes.
\<close>

record 'b runtime =
  todayDate :: string
  formatDate :: "64 word \<Rightarrow> string"
  rangeOrder :: "(string \<times> 64 word) list \<Rightarrow> (string \<times> 64 word) list"
  decodeJSON :: "'b \<Rightarrow> ExportData option"
  encodeJSON :: "ExportData \<Rightarrow> 'b"

text \<open>
  The file named by \<open>--export\<close>, as the export step meets it. \<open>stored\<close> is its content,
  \<open>None\<close> when \<open>os.Stat\<close> returns an error (the code then takes the file as absent).
  The other fields say which system call fails: \<open>write_err = Some torn\<close> means that
  writing fails and leaves \<open>torn\<close> in the file that \<open>os.Create\<close> has truncated.
\<close>

record 'b filesys =
  stored :: "'b option"
  open_err :: bool
  create_err :: bool
  write_err :: "'b option"
  md5_err :: bool

section \<open>\<open>calculateCurCounts\<close>\<close>

text \<open>
  The two maps of the loop. \<open>counts\<close> is ranged over afterwards, so it is an association
  list with one pair for each key, in the order of insertion; \<open>processed\<close> is only looked up.
  Reading a Go map at a missing key gives the zero value.
\<close>

definition lookupCount :: "(string \<times> 64 word) list \<Rightarrow> string \<Rightarrow> 64 word" where
  "lookupCount counts date = (case map_of counts date of None \<Rightarrow> 0 | Some c \<Rightarrow> c)"

definition lookupProcessed :: "(string \<rightharpoonup> (string \<rightharpoonup> bool)) \<Rightarrow> string \<Rightarrow> string \<Rightarrow> bool" where
  "lookupProcessed processed date name =
     (case processed date of None \<Rightarrow> False
      | Some inner \<Rightarrow> (case inner name of None \<Rightarrow> False | Some b \<Rightarrow> b))"

text \<open>The body of \<open>for _, record := range records\<close> (lines 362 to 373).\<close>

definition countStep ::
  "'b runtime \<Rightarrow> (string \<times> 64 word) list \<times> (string \<rightharpoonup> (string \<rightharpoonup> bool)) \<Rightarrow> DeleteCountRecord
     \<Rightarrow> (string \<times> 64 word) list \<times> (string \<rightharpoonup> (string \<rightharpoonup> bool))" where
  "countStep rt state record =
     (let counts = fst state;
          processed = snd state;
          date = formatDate rt (Timestamp record);
          processed1 = (if processed date = None then processed(date \<mapsto> Map.empty) else processed)
      in if \<not> lookupProcessed processed1 date (QualifiedApiName record)
         then (AList.update date (lookupCount counts date + Count record) counts,
               processed1(date \<mapsto>
                 (case processed1 date of None \<Rightarrow> Map.empty | Some inner \<Rightarrow> inner)
                   (QualifiedApiName record \<mapsto> True)))
         else (counts, processed1))"

definition calculateCurCounts :: "'b runtime \<Rightarrow> DeleteCountRecord list \<Rightarrow> LastCount list" where
  "calculateCurCounts rt records =
     (if length records = 0 then [\<lparr>Date = todayDate rt, Count_lc = 0\<rparr>]
      else let counts = fst (foldl (countStep rt) ([], Map.empty) records)
           in map (\<lambda>(date, count'). \<lparr>Date = date, Count_lc = count'\<rparr>) (rangeOrder rt counts))"

section \<open>\<open>exportResultsAsJSON\<close>\<close>

text \<open>
  The first block of the function (lines 308 to 320): when \<open>os.Stat\<close> finds the file it
  is opened and decoded, and either failure is fatal; otherwise \<open>exportData\<close> keeps its
  zero value.
\<close>

definition loadExisting :: "'b runtime \<Rightarrow> 'b filesys \<Rightarrow> failure + ExportData" where
  "loadExisting rt fs =
     (case stored fs of
        None \<Rightarrow> Inr \<lparr>Results = [], LastRunCount = []\<rparr>
      | Some bytes \<Rightarrow>
          if open_err fs then Inl OpenFailed
          else (case decodeJSON rt bytes of None \<Rightarrow> Inl DecodeFailed | Some exportData \<Rightarrow> Inr exportData))"

text \<open>
  The export step on the file \<open>fs\<close> with the accumulated records \<open>deleteCounts\<close>: the
  failure it ends with (\<open>None\<close> when it returns) and the file it leaves.
\<close>

definition exportResultsAsJSON ::
  "'b runtime \<Rightarrow> 'b filesys \<Rightarrow> DeleteCountRecord list \<Rightarrow> failure option \<times> 'b filesys" where
  "exportResultsAsJSON rt fs deleteCounts =
     (case loadExisting rt fs of
        Inl e \<Rightarrow> (Some e, fs)
      | Inr exportData0 \<Rightarrow>
          let exportData1 = exportData0\<lparr>Results := Results exportData0 @ deleteCounts\<rparr>;
              exportData = exportData1\<lparr>LastRunCount := calculateCurCounts rt deleteCounts\<rparr>
          in if create_err fs then (Some CreateFailed, fs)
             else (case write_err fs of
                     Some torn \<Rightarrow> (Some EncodeFailed, fs\<lparr>stored := Some torn\<rparr>)
                   | None \<Rightarrow>
                       let fs' = fs\<lparr>stored := Some (encodeJSON rt exportData)\<rparr>
                       in if md5_err fs then (Some MD5Failed, fs') else (None, fs')))"

section \<open>The export file as \<open>encoding/json\<close> writes and reads it\<close>












section \<open>The count query\<close>

text \<open>
  The external tool and the JSON library, as parameters:
  \<^item> \<open>readQueryFile\<close> is \<open>queries.ReadFile\<close> on the embedded \<open>soql\<close> directory (\<open>None\<close> when
    it returns an error);
  \<^item> \<open>runSf args\<close> is \<open>exec.Command("sf", args...).CombinedOutput()\<close>: whether it returned
    no error, and the combined output;
  \<^item> \<open>unmarshal\<close> is \<open>json.Unmarshal(output, &jsonData)\<close> into a \<open>map[string]interface{}\<close>:
    \<open>None\<close> when it returns an error, else the map it filled;
  \<^item> a JSON number is decoded to a \<open>float64\<close>, the type \<open>'f\<close> here, and \<open>truncFloat\<close> is the
    conversion \<open>int(totalSize)\<close>;
  \<^item> \<open>unixNow\<close> is \<open>time.Now().Unix()\<close>.
\<close>

datatype 'f json =
    JNull
  | JBool bool
  | JNumber 'f
  | JString string
  | JArray "'f json list"
  | JObject "(string \<times> 'f json) list"

record 'f sfcli =
  readQueryFile :: "string \<Rightarrow> string option"
  runSf :: "string list \<Rightarrow> bool \<times> string"
  unmarshal :: "string \<Rightarrow> (string \<times> 'f json) list option"
  truncFloat :: "'f \<Rightarrow> 64 word"
  unixNow :: "64 word"

text \<open>The marker \<open>\<guillemotright>\<close> is the two bytes \<open>C2 BB\<close> of its UTF-8 encoding.\<close>

definition skipFirstLineIfNeeded :: "string \<Rightarrow> string" where
  "skipFirstLineIfNeeded output =
     (if Contains output [CHR 0xC2, CHR 0xBB] \<or> Contains output ''update available''
      then (let index = Index output (CHR ''\<newline>'')
            in if index \<noteq> -1 then drop (nat (index + 1)) output else output)
      else output)"

definition queryCount :: "'f sfcli \<Rightarrow> string list \<Rightarrow> failure + 64 word" where
  "queryCount cli cmdArgs =
     (case runSf cli cmdArgs of
        (False, output) \<Rightarrow> Inl (CommandFailed output)
      | (True, output) \<Rightarrow>
          (case unmarshal cli (skipFirstLineIfNeeded output) of
             None \<Rightarrow> Inl JSONUnmarshalFailed
           | Some jsonData \<Rightarrow>
               (case map_of jsonData ''result'' of
                  Some (JObject result) \<Rightarrow>
                    (case map_of result ''totalSize'' of
                       Some (JNumber totalSize) \<Rightarrow> Inr (truncFloat cli totalSize)
                     | _ \<Rightarrow> Inl TotalSizeNotFloat)
                | _ \<Rightarrow> Inl ResultNotMap)))"

section \<open>The field queries\<close>

text \<open>The loop of \<open>extractCSVData\<close> over the lines, with its flag \<open>processingCSV\<close>.\<close>

fun extractLines :: "bool \<Rightarrow> string list \<Rightarrow> string" where
  "extractLines processingCSV [] = []"
| "extractLines processingCSV (line # rest) =
     (if processingCSV
      then (if line \<noteq> [] then line @ ''\<newline>'' @ extractLines True rest
            else extractLines True rest)
      else if Contains line '','' then line @ ''\<newline>'' @ extractLines True rest
      else extractLines False rest)"

definition extractCSVData :: "string \<Rightarrow> string" where
  "extractCSVData output = extractLines False (Split output (CHR ''\<newline>''))"

definition queryFieldData :: "'f sfcli \<Rightarrow> string \<Rightarrow> string \<Rightarrow> string \<Rightarrow> bool \<Rightarrow> failure + string" where
  "queryFieldData cli sfOrg queryFile queryId useToolingApi =
     (case readQueryFile cli queryFile of
        None \<Rightarrow> Inl QueryFileReadFailed
      | Some queryData \<Rightarrow>
          let queryDataStr0 = ReplaceAll queryData (CHR ''\<newline>'') '' '';
              queryDataStr = (if queryId \<noteq> [] then ReplaceAll queryDataStr0 (CHR ''#'') queryId
                              else queryDataStr0);
              cmdArgs = [''data'', ''query'', ''-o'', sfOrg, ''-r'', ''csv'', ''-q'', queryDataStr]
                          @ (if useToolingApi then [''-t''] else [])
          in (case runSf cli cmdArgs of
                (False, output) \<Rightarrow> Inl (CommandFailed output)
              | (True, output) \<Rightarrow> Inr (extractCSVData output)))"

section \<open>The three stages\<close>

text \<open>
  Each stage loops over the lines of a table, starts a goroutine for every line it does not
  skip and waits for all of them. A goroutine appends its record to \<open>deleteCounts\<close> under
  the lock; \<open>log.Fatal\<close> in a goroutine, or a panic, ends the process. The model runs the
  goroutine of a line to its end before the loop looks at the next line: one of the
  schedules of the program. Whether a run ends in a failure, and which records a run without
  failure has appended, is the same under every schedule; the order of the records and which
  of several failures ends the process are not.

  \<open>forEachLine body lines\<close> is such a loop: the records appended, or the first failure.
\<close>

fun forEachLine ::
  "(string \<Rightarrow> failure + DeleteCountRecord list) \<Rightarrow> string list \<Rightarrow> failure + DeleteCountRecord list" where
  "forEachLine body [] = Inr []"
| "forEachLine body (line # rest) =
     (case body line of
        Inl e \<Rightarrow> Inl e
      | Inr records \<Rightarrow>
          (case forEachLine body rest of
             Inl e \<Rightarrow> Inl e
           | Inr records' \<Rightarrow> Inr (records @ records')))"

text \<open>The body of the loop of \<open>processApiNames\<close> with its goroutine (lines 224 to 261).\<close>

definition apiNameLine ::
  "'f sfcli \<Rightarrow> string \<Rightarrow> string \<Rightarrow> string \<Rightarrow> string \<Rightarrow> string \<Rightarrow> failure + DeleteCountRecord list" where
  "apiNameLine cli developerName tableEnumOrId apiName org apiLine =
     (if apiLine = [] then Inr []
      else let apiData = Split apiLine (CHR '','')
           in (case at apiData 2 of
                 Inl e \<Rightarrow> Inl e
               | Inr qualified \<Rightarrow>
                   if qualified = ''QualifiedApiName'' then Inr []
                   else let query = ''SELECT Count() FROM '' @ qualified;
                            cmdArgs = [''data'', ''query'', ''-q'', query, ''-o'', org, ''-r'', ''json'']
                        in (case queryCount cli cmdArgs of
                              Inl e \<Rightarrow> Inl e
                            | Inr count' \<Rightarrow>
                                (case at apiData 1 of
                                   Inl e \<Rightarrow> Inl e
                                 | Inr api \<Rightarrow>
                                     Inr [\<lparr>DeveloperName = developerName,
                                           TableEnumOrId = tableEnumOrId,
                                           QualifiedApiName = qualified,
                                           ApiName = api,
                                           Count = count',
                                           Timestamp = unixNow cli\<rparr>]))))"

definition processApiNames ::
  "'f sfcli \<Rightarrow> string \<Rightarrow> string \<Rightarrow> string \<Rightarrow> string \<Rightarrow> string \<Rightarrow> failure + DeleteCountRecord list" where
  "processApiNames cli apiNameCSV developerName tableEnumOrId apiName org =
     forEachLine (apiNameLine cli developerName tableEnumOrId apiName org)
       (Split apiNameCSV (CHR ''\<newline>''))"

text \<open>The body of the loop of \<open>processDeveloperNames\<close> with its goroutine (lines 192 to 214).\<close>

definition developerNameLine ::
  "'f sfcli \<Rightarrow> string \<Rightarrow> string \<Rightarrow> string \<Rightarrow> string \<Rightarrow> failure + DeleteCountRecord list" where
  "developerNameLine cli developerName tableEnumOrId org devLine =
     (if devLine = [] then Inr []
      else let apiData = Split devLine (CHR '','')
           in (case at apiData 1 of
                 Inl e \<Rightarrow> Inl e
               | Inr api \<Rightarrow>
                   if api = ''DeveloperName'' then Inr []
                   else (case queryFieldData cli org ''soql/developer_name_to_api_name.soql'' api False of
                           Inl e \<Rightarrow> Inl e
                         | Inr apiNameCSV \<Rightarrow>
                             processApiNames cli apiNameCSV developerName tableEnumOrId api org)))"

definition processDeveloperNames ::
  "'f sfcli \<Rightarrow> string \<Rightarrow> string \<Rightarrow> string \<Rightarrow> string \<Rightarrow> failure + DeleteCountRecord list" where
  "processDeveloperNames cli devNameCSV developerName tableEnumOrId org =
     forEachLine (developerNameLine cli developerName tableEnumOrId org)
       (Split devNameCSV (CHR ''\<newline>''))"

text \<open>
  The body of the loop of \<open>processDeletedFields\<close> with its goroutine (lines 153 to 182).
  The call of \<open>log.Printf\<close> on line 160 reads \<open>data[1]\<close> before the \<open>continue\<close>.
\<close>

definition deletedFieldLine :: "'f sfcli \<Rightarrow> string \<Rightarrow> string \<Rightarrow> failure + DeleteCountRecord list" where
  "deletedFieldLine cli org line =
     (if line = [] \<or> HasPrefix line ''DeveloperName'' then Inr []
      else let data = Split line (CHR '','')
           in (case at data 0 of
                 Inl e \<Rightarrow> Inl e
               | Inr data0 \<Rightarrow>
                   if \<not> HasSuffix data0 ''_del''
                   then (case at data 1 of Inl e \<Rightarrow> Inl e | Inr data1 \<Rightarrow> Inr [])
                   else (case at data 1 of
                           Inl e \<Rightarrow> Inl e
                         | Inr data1 \<Rightarrow>
                             if HasPrefix data1 ''01I''
                             then (case queryFieldData cli org ''soql/enum_to_developer_name.soql'' data1 True of
                                     Inl e \<Rightarrow> Inl e
                                   | Inr devNameCSV \<Rightarrow>
                                       processDeveloperNames cli devNameCSV data0 data1 org)
                             else let devNameCSV = data0 @ '',DeveloperName\<newline>'' @ data0 @ '','' @ data0
                                  in processDeveloperNames cli devNameCSV data0 data1 org)))"

definition processDeletedFields :: "'f sfcli \<Rightarrow> string \<Rightarrow> string \<Rightarrow> failure + DeleteCountRecord list" where
  "processDeletedFields cli deletedFieldsCSV org =
     forEachLine (deletedFieldLine cli org) (Split deletedFieldsCSV (CHR ''\<newline>''))"

section \<open>A runtime and a tool to run the program on\<close>

text \<open>
  \<open>utcDate t\<close> is the text of \<open>time.Unix(t, 0).Format("2006-01-02")\<close> in a process whose local
  zone is UTC, for the years 0 to 9999: the civil date of the day \<open>t div 86400\<close> (rounded
  down) after 1 January 1970.
\<close>

definition civilFromDays :: "int \<Rightarrow> int \<times> int \<times> int" where
  "civilFromDays days =
     (let z = days + 719468;
          era = z div 146097;
          doe = z mod 146097;
          yoe = (doe - doe div 1460 + doe div 36524 - doe div 146096) div 365;
          doy = doe - (365 * yoe + yoe div 4 - yoe div 100);
          mp = (5 * doy + 2) div 153;
          d = doy - (153 * mp + 2) div 5 + 1;
          m = (if mp < 10 then mp + 3 else mp - 9);
          y = yoe + era * 400 + (if m \<le> 2 then 1 else 0)
      in (y, m, d))"

definition digit :: "int \<Rightarrow> char" where
  "digit n = ''0123456789'' ! nat (n mod 10)"

definition utcDate :: "64 word \<Rightarrow> string" where
  "utcDate t =
     (case civilFromDays (sint t div 86400) of
        (y, m, d) \<Rightarrow>
          [digit (y div 1000), digit (y div 100), digit (y div 10), digit y, CHR ''-'',
           digit (m div 10), digit m, CHR ''-'', digit (d div 10), digit d])"

text \<open>
  A runtime for the examples: the process runs on 2 March 2024 in UTC, \<open>range\<close> visits the
  map in the order of insertion, and a file holds either a decoded document or, as \<open>None\<close>,
  bytes that do not decode.
\<close>

definition utcRuntime :: "ExportData option runtime" where
  "utcRuntime =
     \<lparr>todayDate = ''2024-03-02'', formatDate = utcDate, rangeOrder = (\<lambda>counts. counts),
      decodeJSON = (\<lambda>bytes. bytes), encodeJSON = Some\<rparr>"

definition plainFile :: "ExportData option option \<Rightarrow> ExportData option filesys" where
  "plainFile content =
     \<lparr>stored = content, open_err = False, create_err = False, write_err = None, md5_err = False\<rparr>"

text \<open>
  A tool for the examples: the enumeration lookup finds the developer name \<open>Foo\<close>, the name
  lookup finds the object \<open>Foo__c\<close> for every developer name, and every count query prints
  an advisory line before a document whose \<open>result.totalSize\<close> is 5. \<open>unmarshal\<close> knows
  this one document (with \<open>'\<close> standing for the double quote) and rejects any other text.
\<close>

definition countOutput :: string where
  "countOutput = ''{'result':{'totalSize':5}}''"

definition scriptedCli :: "int sfcli" where
  "scriptedCli =
     \<lparr>readQueryFile = (\<lambda>queryFile. Some ''SELECT DeveloperName FROM CustomField WHERE TableEnumOrId = #''),
      runSf = (\<lambda>args.
        if ''json'' \<in> set args
        then (True, ''Warning: update available from 2.60.13 to 2.61.8.\<newline>'' @ countOutput)
        else if ''-t'' \<in> set args
        then (True, ''Querying Data... done\<newline>Id,DeveloperName\<newline>0Aa,Foo\<newline>'')
        else (True, ''Id,DeveloperName,QualifiedApiName\<newline>0Bb,Foo,Foo__c\<newline>'')),
      unmarshal = (\<lambda>output.
        if output = countOutput then Some [(''result'', JObject [(''totalSize'', JNumber 5)])]
        else None),
      truncFloat = word_of_int,
      unixNow = 1709337600\<rparr>"

text \<open>
  Records for the examples. \<open>recA\<close>, \<open>recA'\<close> and \<open>recC\<close> are of 14 November 2023, \<open>recB\<close> of
  2 March 2024; \<open>recA'\<close> is a second record for the object of \<open>recA\<close>, with another count.
\<close>

definition recA :: DeleteCountRecord where
  "recA = \<lparr>DeveloperName = ''Foo_del'', TableEnumOrId = ''01I000000000001'',
            QualifiedApiName = ''Acme__c'', ApiName = ''Foo'', Count = 5, Timestamp = 1700000000\<rparr>"

definition recA' :: DeleteCountRecord where
  "recA' = \<lparr>DeveloperName = ''Old_del'', TableEnumOrId = ''Acme__c'',
             QualifiedApiName = ''Acme__c'', ApiName = ''Old_del'', Count = 9, Timestamp = 1700003600\<rparr>"

definition recB :: DeleteCountRecord where
  "recB = \<lparr>DeveloperName = ''Bar_del'', TableEnumOrId = ''Account'',
            QualifiedApiName = ''Other__c'', ApiName = ''Bar_del'', Count = 7, Timestamp = 1709337600\<rparr>"

definition recC :: DeleteCountRecord where
  "recC = \<lparr>DeveloperName = ''Baz_del'', TableEnumOrId = ''Contact'',
            QualifiedApiName = ''Third__c'', ApiName = ''Baz_del'', Count = 2, Timestamp = 1700000100\<rparr>"

definition state1 :: ExportData where
  "state1 = \<lparr>Results = [recA], LastRunCount = [\<lparr>Date = ''2023-11-14'', Count_lc = 5\<rparr>]\<rparr>"

definition state2 :: ExportData where
  "state2 = \<lparr>Results = [recB], LastRunCount = [\<lparr>Date = ''2024-03-02'', Count_lc = 7\<rparr>]\<rparr>"

text \<open>
  A deleted-fields table for the examples, and the record that the scripted tool makes of its
  one eligible row.
\<close>

definition table1 :: string where
  "table1 = ''DeveloperName,TableEnumOrId\<newline>Bar_del,01I000000000001\<newline>Qux,Account\<newline>''"

definition recBar :: DeleteCountRecord where
  "recBar = \<lparr>DeveloperName = ''Bar_del'', TableEnumOrId = ''01I000000000001'',
              QualifiedApiName = ''Foo__c'', ApiName = ''Foo'', Count = 5, Timestamp = 1709337600\<rparr>"




section \<open>Reading the current counts\<close>

text \<open>
  \<open>totalFor curCounts date\<close> is the count that the list \<open>curCounts\<close> gives for \<open>date\<close>, and
  \<open>sameDateAndName rt r a\<close> says that two records are of the same calendar date and the same
  object.
\<close>

definition totalFor :: "LastCount list \<Rightarrow> string \<Rightarrow> 64 word option" where
  "totalFor curCounts date = map_of (map (\<lambda>entry. (Date entry, Count_lc entry)) curCounts) date"

definition sameDateAndName :: "'b runtime \<Rightarrow> DeleteCountRecord \<Rightarrow> DeleteCountRecord \<Rightarrow> bool" where
  "sameDateAndName rt r a =
     (formatDate rt (Timestamp r) = formatDate rt (Timestamp a) \<and>
      QualifiedApiName r = QualifiedApiName a)"

section \<open>The loop of \<open>calculateCurCounts\<close>\<close>

lemma countStep_counts:
  "map_of (fst (countStep rt s r)) =
     (if lookupProcessed (snd s) (formatDate rt (Timestamp r)) (QualifiedApiName r) then map_of (fst s)
      else (map_of (fst s))(formatDate rt (Timestamp r) \<mapsto>
             lookupCount (fst s) (formatDate rt (Timestamp r)) + Count r))"
  by (cases "snd s (formatDate rt (Timestamp r))")
     (simp_all add: countStep_def Let_def lookupProcessed_def update_conv')

lemma countStep_processed:
  "lookupProcessed (snd (countStep rt s r)) d n =
     (lookupProcessed (snd s) d n \<or> (formatDate rt (Timestamp r) = d \<and> QualifiedApiName r = n))"
  by (cases "snd s (formatDate rt (Timestamp r))")
     (auto simp add: countStep_def Let_def lookupProcessed_def split: option.splits)

lemma countStep_distinct:
  "distinct (map fst (fst s)) \<Longrightarrow> distinct (map fst (fst (countStep rt s r)))"
  by (simp add: countStep_def Let_def distinct_update)

lemma countLoop_distinct:
  "distinct (map fst (fst s)) \<Longrightarrow> distinct (map fst (fst (foldl (countStep rt) s rs)))"
  by (induction rs arbitrary: s) (simp_all add: countStep_distinct)

lemma countLoop_processed:
  "lookupProcessed (snd (foldl (countStep rt) s rs)) d n =
     (lookupProcessed (snd s) d n \<or>
      (\<exists>r\<in>set rs. formatDate rt (Timestamp r) = d \<and> QualifiedApiName r = n))"
  by (induction rs arbitrary: s) (auto simp add: countStep_processed)

text \<open>A record whose date and object are marked in \<open>processed\<close> leaves both maps as they are.\<close>

lemma countStep_skip:
  assumes "lookupProcessed (snd s) (formatDate rt (Timestamp r)) (QualifiedApiName r)"
  shows "countStep rt s r = s"
  using assms
  by (cases "snd s (formatDate rt (Timestamp r))")
     (simp_all add: countStep_def Let_def lookupProcessed_def)

text \<open>
  Two runs of the loop side by side. The first starts with the object \<open>na\<close> marked for the
  date \<open>da\<close> and with \<open>c\<close> more on that date; the second starts without, and is not given the
  records of that date and object. They end \<open>c\<close> apart on that date.
\<close>

lemma countLoop_without:
  assumes "\<forall>d n. lookupProcessed (snd s1) d n = (lookupProcessed (snd s0) d n \<or> (d = da \<and> n = na))"
    and "lookupCount (fst s1) da = lookupCount (fst s0) da + c"
    and "map_of (fst s1) da \<noteq> None"
    and "\<forall>d. d \<noteq> da \<longrightarrow> map_of (fst s1) d = map_of (fst s0) d"
  shows "lookupCount (fst (foldl (countStep rt) s1 rs)) da =
           lookupCount (fst (foldl (countStep rt) s0
              (filter (\<lambda>r. \<not> (formatDate rt (Timestamp r) = da \<and> QualifiedApiName r = na)) rs))) da + c
         \<and> map_of (fst (foldl (countStep rt) s1 rs)) da \<noteq> None"
  using assms
proof (induction rs arbitrary: s1 s0)
  case Nil
  then show ?case by simp
next
  case (Cons r rs)
  let ?d = "formatDate rt (Timestamp r)" and ?n = "QualifiedApiName r"
  show ?case
  proof (cases "?d = da \<and> ?n = na")
    case True
    then have "lookupProcessed (snd s1) ?d ?n" using Cons.prems(1) by simp
    then have "countStep rt s1 r = s1" by (rule countStep_skip)
    then show ?thesis using True Cons.IH[of s1 s0] Cons.prems by simp
  next
    case False
    have same: "lookupProcessed (snd s1) ?d ?n = lookupProcessed (snd s0) ?d ?n"
      using False Cons.prems(1) by auto
    let ?t1 = "countStep rt s1 r" and ?t0 = "countStep rt s0 r"
    have p: "\<forall>d n. lookupProcessed (snd ?t1) d n = (lookupProcessed (snd ?t0) d n \<or> (d = da \<and> n = na))"
      using Cons.prems(1) by (auto simp add: countStep_processed)
    have look: "lookupCount (fst s1) ?d =
                  (if ?d = da then lookupCount (fst s0) ?d + c else lookupCount (fst s0) ?d)"
      using Cons.prems(2,4) by (auto simp add: lookupCount_def)
    have c: "lookupCount (fst ?t1) da = lookupCount (fst ?t0) da + c"
      using Cons.prems(2) look same by (auto simp add: lookupCount_def countStep_counts)
    have n: "map_of (fst ?t1) da \<noteq> None"
      using Cons.prems(3) by (simp add: countStep_counts)
    have o: "\<forall>d. d \<noteq> da \<longrightarrow> map_of (fst ?t1) d = map_of (fst ?t0) d"
      using Cons.prems(4) look same by (auto simp add: countStep_counts)
    show ?thesis using Cons.IH[OF p c n o] False by simp
  qed
qed

text \<open>Whatever the order of the \<open>range\<close> loop, the list it builds gives the counts of the map.\<close>

lemma map_of_permuted:
  assumes "mset ys = mset xs" "distinct (map fst xs)"
  shows "map_of ys = map_of xs"
proof -
  have s: "set ys = set xs" using assms(1) by (rule mset_eq_setD)
  have "mset (map fst ys) = mset (map fst xs)" using assms(1) by (metis mset_map)
  then have "distinct (map fst ys)" using assms(2) by (metis mset_eq_imp_distinct_iff)
  then show ?thesis using assms(2) s by (simp add: map_of_inject_set)
qed

lemma totalFor_entries:
  "totalFor (map (\<lambda>(date, count'). \<lparr>Date = date, Count_lc = count'\<rparr>) cs) = map_of cs"
proof -
  have "map (\<lambda>entry. (Date entry, Count_lc entry))
          (map (\<lambda>(date, count'). \<lparr>Date = date, Count_lc = count'\<rparr>) cs) = cs"
    by (induction cs) auto
  then show ?thesis by (simp add: totalFor_def fun_eq_iff)
qed

lemma totalFor_calculateCurCounts:
  assumes "\<forall>cs. mset (rangeOrder rt cs) = mset cs" "records \<noteq> []"
  shows "totalFor (calculateCurCounts rt records) =
           map_of (fst (foldl (countStep rt) ([], Map.empty) records))"
proof -
  let ?cs = "fst (foldl (countStep rt) ([], Map.empty) records)"
  have "distinct (map fst ?cs)" by (rule countLoop_distinct) simp
  moreover have "mset (rangeOrder rt ?cs) = mset ?cs" using assms(1) by blast
  ultimately have "map_of (rangeOrder rt ?cs) = map_of ?cs" by (metis map_of_permuted)
  then show ?thesis using assms(2) by (simp add: calculateCurCounts_def Let_def totalFor_entries)
qed

lemma totalFor_default:
  assumes "\<forall>cs. mset (rangeOrder rt cs) = mset cs"
  shows "(case totalFor (calculateCurCounts rt records) d of None \<Rightarrow> 0 | Some c \<Rightarrow> c) =
           lookupCount (fst (foldl (countStep rt) ([], Map.empty) records)) d"
proof (cases "records = []")
  case True
  then show ?thesis by (simp add: calculateCurCounts_def totalFor_def lookupCount_def)
next
  case False
  then show ?thesis using totalFor_calculateCurCounts[OF assms False] by (simp add: lookupCount_def)
qed

text \<open>
  C3. Take a list with two records \<open>a\<close> and \<open>b\<close> of the same calendar date and the same
  \<open>QualifiedApiName\<close>, \<open>a\<close> the first record of that date and object in the list. Then the
  total of that date in the current counts is the count of \<open>a\<close> plus the total that the other
  objects' records give that date: the count of \<open>b\<close>, and of any other record of that date and
  object, does not enter. The counts of \<open>a\<close> and \<open>b\<close> may differ or not; the sum is Go's
  wrapping sum; the \<open>range\<close> loop may visit the map in any order.
\<close>

theorem first_seen_wins:
  assumes range: "\<forall>cs. mset (rangeOrder rt cs) = mset cs"
    and first: "\<forall>r\<in>set xs. \<not> sameDateAndName rt r a"
    and same: "sameDateAndName rt b a"
  shows "totalFor (calculateCurCounts rt (xs @ a # ys @ b # zs)) (formatDate rt (Timestamp a)) =
           Some (Count a +
             (case totalFor (calculateCurCounts rt
                     (filter (\<lambda>r. \<not> sameDateAndName rt r a) (xs @ a # ys @ b # zs)))
                   (formatDate rt (Timestamp a)) of
                None \<Rightarrow> 0 | Some c \<Rightarrow> c))"
proof -
  let ?da = "formatDate rt (Timestamp a)" and ?na = "QualifiedApiName a"
  let ?init = "([], Map.empty) :: (string \<times> 64 word) list \<times> (string \<rightharpoonup> (string \<rightharpoonup> bool))"
  let ?rest = "ys @ b # zs"
  let ?keep = "\<lambda>r. \<not> (formatDate rt (Timestamp r) = ?da \<and> QualifiedApiName r = ?na)"
  let ?sx = "foldl (countStep rt) ?init xs"
  let ?s1 = "countStep rt ?sx a"
  have keep: "(\<lambda>r. \<not> sameDateAndName rt r a) = ?keep"
    by (simp add: sameDateAndName_def fun_eq_iff)
  have fx: "filter ?keep xs = xs"
    using first by (simp add: sameDateAndName_def filter_id_conv)
  have "\<not> lookupProcessed (snd ?init) ?da ?na"
    by (simp add: lookupProcessed_def)
  then have unseen: "\<not> lookupProcessed (snd ?sx) ?da ?na"
    using first by (simp add: countLoop_processed sameDateAndName_def)
  have p: "\<forall>d n. lookupProcessed (snd ?s1) d n = (lookupProcessed (snd ?sx) d n \<or> (d = ?da \<and> n = ?na))"
    by (auto simp add: countStep_processed)
  have c: "lookupCount (fst ?s1) ?da = lookupCount (fst ?sx) ?da + Count a"
    using unseen by (simp add: lookupCount_def countStep_counts)
  have n: "map_of (fst ?s1) ?da \<noteq> None"
    using unseen by (simp add: countStep_counts)
  have o: "\<forall>d. d \<noteq> ?da \<longrightarrow> map_of (fst ?s1) d = map_of (fst ?sx) d"
    by (simp add: countStep_counts)
  have run: "foldl (countStep rt) ?init (xs @ a # ?rest) = foldl (countStep rt) ?s1 ?rest"
    by simp
  have runf: "foldl (countStep rt) ?init (filter ?keep (xs @ a # ?rest)) =
                foldl (countStep rt) ?sx (filter ?keep ?rest)"
    using fx by simp
  from countLoop_without[OF p c n o, of rt ?rest]
  have fin: "lookupCount (fst (foldl (countStep rt) ?init (xs @ a # ?rest))) ?da =
               lookupCount (fst (foldl (countStep rt) ?init (filter ?keep (xs @ a # ?rest)))) ?da + Count a"
    and nn: "map_of (fst (foldl (countStep rt) ?init (xs @ a # ?rest))) ?da \<noteq> None"
    unfolding run runf by simp_all
  have "totalFor (calculateCurCounts rt (xs @ a # ?rest)) ?da =
          Some (lookupCount (fst (foldl (countStep rt) ?init (xs @ a # ?rest))) ?da)"
    using nn totalFor_calculateCurCounts[OF range, of "xs @ a # ?rest"]
    by (auto simp add: lookupCount_def)
  then show ?thesis
    unfolding keep totalFor_default[OF range] using fin by (simp add: add.commute)
qed

text \<open>
  The list \<open>recA, recC, recA'\<close>: \<open>recA'\<close> repeats the date and object of \<open>recA\<close> with the count 9
  instead of 5, and \<open>recC\<close> adds 2 for another object. The total of the date is 7.
\<close>

theorem first_seen_wins_witness:
  "totalFor (calculateCurCounts utcRuntime ([] @ recA # [recC] @ recA' # []))
     (formatDate utcRuntime (Timestamp recA)) = Some 7"
proof -
  have range: "\<forall>cs. mset (rangeOrder utcRuntime cs) = mset cs"
    by (simp add: utcRuntime_def)
  have first: "\<forall>r\<in>set []. \<not> sameDateAndName utcRuntime r recA"
    by simp
  have same: "sameDateAndName utcRuntime recA' recA"
    by code_simp
  have "totalFor (calculateCurCounts utcRuntime ([] @ recA # [recC] @ recA' # []))
          (formatDate utcRuntime (Timestamp recA)) =
        Some (Count recA +
          (case totalFor (calculateCurCounts utcRuntime
                  (filter (\<lambda>r. \<not> sameDateAndName utcRuntime r recA) ([] @ recA # [recC] @ recA' # [])))
                (formatDate utcRuntime (Timestamp recA)) of
             None \<Rightarrow> 0 | Some c \<Rightarrow> c))"
    by (rule first_seen_wins[OF range first same])
  also have "\<dots> = Some 7"
    by code_simp
  finally show ?thesis .
qed

section \<open>The export step\<close>

text \<open>What the export step writes when nothing fails before or during the write.\<close>

lemma export_written:
  assumes "loadExisting rt fs = Inr old" "\<not> create_err fs" "write_err fs = None"
  shows "stored (snd (exportResultsAsJSON rt fs deleteCounts)) =
           Some (encodeJSON rt \<lparr>Results = Results old @ deleteCounts,
                                 LastRunCount = calculateCurCounts rt deleteCounts\<rparr>)"
  using assms by (cases old) (simp add: exportResultsAsJSON_def Let_def)


lemma plainFile_loads: "loadExisting utcRuntime (plainFile (Some (Some d))) = Inr d"
  by (simp add: loadExisting_def plainFile_def utcRuntime_def)

lemma plainFile_flags:
  "\<not> create_err (plainFile content)" "write_err (plainFile content) = None"
  "\<not> open_err (plainFile content)" "stored (plainFile content) = content"
  by (simp_all add: plainFile_def)

text \<open>
  C1, as the code has it. Line 323 passes \<open>deleteCounts\<close>, the records of this run, to
  \<open>calculateCurCounts\<close>, not the merged \<open>exportData.Results\<close>: the \<open>lastRunCount\<close> that the
  export step writes is the per-date totals of the new batch alone, beside the results
  sequence extended by that batch.
\<close>

theorem lastRunCount_of_new_batch:
  assumes "loadExisting rt fs = Inr old" "\<not> create_err fs" "write_err fs = None"
  shows "stored (snd (exportResultsAsJSON rt fs deleteCounts)) =
           Some (encodeJSON rt \<lparr>Results = Results old @ deleteCounts,
                                 LastRunCount = calculateCurCounts rt deleteCounts\<rparr>)"
  using assms by (rule export_written)

theorem lastRunCount_of_new_batch_witness:
  "stored (snd (exportResultsAsJSON utcRuntime (plainFile (Some (Some state1))) [recB])) =
     Some (Some \<lparr>Results = [recA, recB], LastRunCount = [\<lparr>Date = ''2024-03-02'', Count_lc = 7\<rparr>]\<rparr>)"
proof -
  have "stored (snd (exportResultsAsJSON utcRuntime (plainFile (Some (Some state1))) [recB])) =
          Some (encodeJSON utcRuntime \<lparr>Results = Results state1 @ [recB],
                                         LastRunCount = calculateCurCounts utcRuntime [recB]\<rparr>)"
    by (rule lastRunCount_of_new_batch[OF plainFile_loads plainFile_flags(1) plainFile_flags(2)])
  also have "\<dots> = Some (Some \<lparr>Results = [recA, recB],
                                LastRunCount = [\<lparr>Date = ''2024-03-02'', Count_lc = 7\<rparr>]\<rparr>)"
    by code_simp
  finally show ?thesis .
qed

text \<open>
  C1 as stated fails: the file holds \<open>recA\<close> of 14 November 2023 and the run adds \<open>recB\<close> of
  2 March 2024. The totals over the old results and the new batch have an entry for each
  date; the \<open>lastRunCount\<close> written has the entry of 2 March alone.
\<close>

theorem lastRunCount_not_of_merged_results:
  "loadExisting utcRuntime
     (snd (exportResultsAsJSON utcRuntime (plainFile (Some (Some state1))) [recB])) =
     Inr \<lparr>Results = [recA, recB], LastRunCount = [\<lparr>Date = ''2024-03-02'', Count_lc = 7\<rparr>]\<rparr>
   \<and> calculateCurCounts utcRuntime (Results state1 @ [recB]) =
     [\<lparr>Date = ''2023-11-14'', Count_lc = 5\<rparr>, \<lparr>Date = ''2024-03-02'', Count_lc = 7\<rparr>]"
  by code_simp

text \<open>
  C2, as the code has it: an export with no new record leaves the results sequence as it
  was loaded and writes, as \<open>lastRunCount\<close>, the one entry of today with the count 0. When
  the file can be opened and the decoder reads that document back, a further export with no
  new record, on the same day, ends as the first did and leaves the file as the first left it.
\<close>

theorem empty_batch_export:
  assumes "loadExisting rt fs = Inr old" "\<not> create_err fs" "write_err fs = None"
  shows "stored (snd (exportResultsAsJSON rt fs [])) =
           Some (encodeJSON rt \<lparr>Results = Results old,
                                 LastRunCount = [\<lparr>Date = todayDate rt, Count_lc = 0\<rparr>]\<rparr>)
         \<and> (\<not> open_err fs \<longrightarrow>
            decodeJSON rt (encodeJSON rt \<lparr>Results = Results old,
                LastRunCount = [\<lparr>Date = todayDate rt, Count_lc = 0\<rparr>]\<rparr>) =
              Some \<lparr>Results = Results old, LastRunCount = [\<lparr>Date = todayDate rt, Count_lc = 0\<rparr>]\<rparr> \<longrightarrow>
            exportResultsAsJSON rt (snd (exportResultsAsJSON rt fs [])) [] =
              exportResultsAsJSON rt fs [])"
proof -
  let ?w = "\<lparr>Results = Results old, LastRunCount = [\<lparr>Date = todayDate rt, Count_lc = 0\<rparr>]\<rparr>"
  let ?fs' = "fs\<lparr>stored := Some (encodeJSON rt ?w)\<rparr>"
  have first: "exportResultsAsJSON rt fs [] = (if md5_err fs then Some MD5Failed else None, ?fs')"
    using assms by (cases old) (simp add: exportResultsAsJSON_def Let_def calculateCurCounts_def)
  have a: "stored (snd (exportResultsAsJSON rt fs [])) = Some (encodeJSON rt ?w)"
    by (simp add: first)
  have b: "\<not> open_err fs \<longrightarrow> decodeJSON rt (encodeJSON rt ?w) = Some ?w \<longrightarrow>
        exportResultsAsJSON rt (snd (exportResultsAsJSON rt fs [])) [] = exportResultsAsJSON rt fs []"
  proof (intro impI)
    assume "\<not> open_err fs" "decodeJSON rt (encodeJSON rt ?w) = Some ?w"
    then have "loadExisting rt ?fs' = Inr ?w"
      by (simp add: loadExisting_def)
    then have "exportResultsAsJSON rt ?fs' [] = (if md5_err fs then Some MD5Failed else None, ?fs')"
      using assms(2,3) by (simp add: exportResultsAsJSON_def Let_def calculateCurCounts_def)
    then show "exportResultsAsJSON rt (snd (exportResultsAsJSON rt fs [])) [] =
        exportResultsAsJSON rt fs []"
      by (simp add: first)
  qed
  show ?thesis by (rule conjI[OF a b])
qed

theorem empty_batch_export_witness:
  "stored (snd (exportResultsAsJSON utcRuntime (plainFile (Some (Some state2))) [])) =
     Some (Some \<lparr>Results = [recB], LastRunCount = [\<lparr>Date = ''2024-03-02'', Count_lc = 0\<rparr>]\<rparr>)
   \<and> exportResultsAsJSON utcRuntime
        (snd (exportResultsAsJSON utcRuntime (plainFile (Some (Some state2))) [])) [] =
      exportResultsAsJSON utcRuntime (plainFile (Some (Some state2))) []"
proof -
  have l: "loadExisting utcRuntime (plainFile (Some (Some state2))) = Inr state2"
    by (rule plainFile_loads)
  note g = empty_batch_export[OF l plainFile_flags(1) plainFile_flags(2)]
  have "stored (snd (exportResultsAsJSON utcRuntime (plainFile (Some (Some state2))) [])) =
          Some (encodeJSON utcRuntime \<lparr>Results = Results state2,
                  LastRunCount = [\<lparr>Date = todayDate utcRuntime, Count_lc = 0\<rparr>]\<rparr>)"
    by (rule g[THEN conjunct1])
  also have "\<dots> = Some (Some \<lparr>Results = [recB],
                                LastRunCount = [\<lparr>Date = ''2024-03-02'', Count_lc = 0\<rparr>]\<rparr>)"
    by code_simp
  finally have a: "stored (snd (exportResultsAsJSON utcRuntime (plainFile (Some (Some state2))) [])) =
     Some (Some \<lparr>Results = [recB], LastRunCount = [\<lparr>Date = ''2024-03-02'', Count_lc = 0\<rparr>]\<rparr>)" .
  have d: "decodeJSON utcRuntime (encodeJSON utcRuntime \<lparr>Results = Results state2,
                LastRunCount = [\<lparr>Date = todayDate utcRuntime, Count_lc = 0\<rparr>]\<rparr>) =
              Some \<lparr>Results = Results state2,
                    LastRunCount = [\<lparr>Date = todayDate utcRuntime, Count_lc = 0\<rparr>]\<rparr>"
    by (simp add: utcRuntime_def)
  note b = g[THEN conjunct2, rule_format, OF plainFile_flags(3) d]
  show ?thesis by (rule conjI[OF a b])
qed

text \<open>
  C2 as stated fails: the file holds \<open>state1\<close>, whose \<open>lastRunCount\<close> is 5 for 14 November
  2023. After an export with no new record it holds 0 for 2 March 2024 instead.
\<close>

theorem empty_batch_changes_lastRunCount:
  "loadExisting utcRuntime (plainFile (Some (Some state1))) =
     Inr \<lparr>Results = [recA], LastRunCount = [\<lparr>Date = ''2023-11-14'', Count_lc = 5\<rparr>]\<rparr>
   \<and> loadExisting utcRuntime
       (snd (exportResultsAsJSON utcRuntime (plainFile (Some (Some state1))) [])) =
     Inr \<lparr>Results = [recA], LastRunCount = [\<lparr>Date = ''2024-03-02'', Count_lc = 0\<rparr>]\<rparr>"
  by code_simp

text \<open>
  C5. When \<open>os.Stat\<close> finds the file and its content does not decode, the export step ends
  in a fatal error (that of \<open>os.Open\<close> when the file cannot be opened, else that of the
  decoder) and the file is as it was: nothing was created or written.
\<close>

theorem malformed_state_untouched:
  assumes "stored fs = Some bytes" "decodeJSON rt bytes = None"
  shows "exportResultsAsJSON rt fs deleteCounts =
           (Some (if open_err fs then OpenFailed else DecodeFailed), fs)"
  using assms by (simp add: exportResultsAsJSON_def loadExisting_def)

theorem malformed_state_untouched_witness:
  "exportResultsAsJSON utcRuntime (plainFile (Some None)) [recA] =
     (Some DecodeFailed, plainFile (Some None))"
proof -
  have a: "stored (plainFile (Some None)) = Some None"
    by (simp add: plainFile_def)
  have b: "decodeJSON utcRuntime None = None"
    by (simp add: utcRuntime_def)
  have "exportResultsAsJSON utcRuntime (plainFile (Some None)) [recA] =
          (Some (if open_err (plainFile (Some None)) then OpenFailed else DecodeFailed),
           plainFile (Some None))"
    by (rule malformed_state_untouched[OF a b])
  then show ?thesis by (simp add: plainFile_flags)
qed

text \<open>
  C7. With no file and no new record, the export step writes a state whose results
  sequence is empty and whose \<open>lastRunCount\<close> is the one entry of today with the count 0.
\<close>

theorem empty_state_export:
  assumes "stored fs = None" "\<not> create_err fs" "write_err fs = None"
  shows "stored (snd (exportResultsAsJSON rt fs [])) =
           Some (encodeJSON rt
             \<lparr>Results = [], LastRunCount = [\<lparr>Date = todayDate rt, Count_lc = 0\<rparr>]\<rparr>)"
proof -
  have "loadExisting rt fs = Inr \<lparr>Results = [], LastRunCount = []\<rparr>"
    using assms(1) by (simp add: loadExisting_def)
  from export_written[OF this assms(2,3), of "[]"] show ?thesis
    by (simp add: calculateCurCounts_def)
qed

theorem empty_state_export_witness:
  "stored (snd (exportResultsAsJSON utcRuntime (plainFile None) [])) =
     Some (Some \<lparr>Results = [], LastRunCount = [\<lparr>Date = ''2024-03-02'', Count_lc = 0\<rparr>]\<rparr>)"
proof -
  have "stored (snd (exportResultsAsJSON utcRuntime (plainFile None) [])) =
          Some (encodeJSON utcRuntime
            \<lparr>Results = [], LastRunCount = [\<lparr>Date = todayDate utcRuntime, Count_lc = 0\<rparr>]\<rparr>)"
    by (rule empty_state_export[OF plainFile_flags(4) plainFile_flags(1) plainFile_flags(2)])
  also have "\<dots> = Some (Some \<lparr>Results = [],
                                LastRunCount = [\<lparr>Date = ''2024-03-02'', Count_lc = 0\<rparr>]\<rparr>)"
    by code_simp
  finally show ?thesis .
qed

subsection \<open>Writing a state and reading it back\<close>


















section \<open>The count query: stripping the advisory line\<close>

lemma Contains_append: "Contains s m \<Longrightarrow> Contains (s @ t) m"
proof (induction s)
  case Nil
  then show ?case by (cases t) simp_all
next
  case (Cons c s)
  show ?case
  proof (cases "prefix m (c # s)")
    case True
    then have "prefix m ((c # s) @ t)" by (rule prefix_prefix)
    then show ?thesis by simp
  next
    case False
    then have "Contains s m" using Cons.prems by simp
    then show ?thesis using Cons.IH by simp
  qed
qed

lemma Index_first: "sep \<notin> set line \<Longrightarrow> Index (line @ sep # rest) sep = int (length line)"
proof (induction line)
  case Nil
  then show ?case by simp
next
  case (Cons c line)
  then show ?case by (auto simp add: Let_def)
qed

lemma skip_marked:
  assumes "CHR ''\<newline>'' \<notin> set line"
    and "Contains line [CHR 0xC2, CHR 0xBB] \<or> Contains line ''update available''"
  shows "skipFirstLineIfNeeded (line @ CHR ''\<newline>'' # rest) = rest"
proof -
  have "Contains (line @ CHR ''\<newline>'' # rest) [CHR 0xC2, CHR 0xBB] \<or>
        Contains (line @ CHR ''\<newline>'' # rest) ''update available''"
    using assms(2) Contains_append by blast
  moreover have "Index (line @ CHR ''\<newline>'' # rest) (CHR ''\<newline>'') = int (length line)"
    using assms(1) by (rule Index_first)
  moreover have "nat (int (length line) + 1) = Suc (length line)"
    by simp
  ultimately show ?thesis
    unfolding skipFirstLineIfNeeded_def Let_def by (simp del: Contains.simps)
qed

text \<open>
  C6. When the tool returns and the output, after \<open>skipFirstLineIfNeeded\<close>, unmarshals to a
  map whose \<open>result\<close> is a map with a number \<open>totalSize\<close>, the count query returns that
  number converted to \<open>int\<close>. When the first line of the output holds one of the two
  markers, \<open>skipFirstLineIfNeeded\<close> removes that line with its line break and nothing more;
  when the output holds neither marker, it removes nothing.
\<close>

theorem queryCount_totalSize:
  "(runSf cli cmdArgs = (True, output) \<longrightarrow>
      unmarshal cli (skipFirstLineIfNeeded output) = Some jsonData \<longrightarrow>
      map_of jsonData ''result'' = Some (JObject result) \<longrightarrow>
      map_of result ''totalSize'' = Some (JNumber totalSize) \<longrightarrow>
      queryCount cli cmdArgs = Inr (truncFloat cli totalSize))
   \<and> (CHR ''\<newline>'' \<notin> set line \<longrightarrow>
      Contains line [CHR 0xC2, CHR 0xBB] \<or> Contains line ''update available'' \<longrightarrow>
      skipFirstLineIfNeeded (line @ CHR ''\<newline>'' # rest) = rest)
   \<and> (\<not> Contains out [CHR 0xC2, CHR 0xBB] \<longrightarrow> \<not> Contains out ''update available'' \<longrightarrow>
      skipFirstLineIfNeeded out = out)"
proof (intro conjI impI)
  assume "runSf cli cmdArgs = (True, output)"
    "unmarshal cli (skipFirstLineIfNeeded output) = Some jsonData"
    "map_of jsonData ''result'' = Some (JObject result)"
    "map_of result ''totalSize'' = Some (JNumber totalSize)"
  then show "queryCount cli cmdArgs = Inr (truncFloat cli totalSize)"
    by (simp add: queryCount_def)
next
  assume "CHR ''\<newline>'' \<notin> set line"
    "Contains line [CHR 0xC2, CHR 0xBB] \<or> Contains line ''update available''"
  then show "skipFirstLineIfNeeded (line @ CHR ''\<newline>'' # rest) = rest"
    by (rule skip_marked)
next
  assume "\<not> Contains out [CHR 0xC2, CHR 0xBB]" "\<not> Contains out ''update available''"
  then show "skipFirstLineIfNeeded out = out"
    by (simp add: skipFirstLineIfNeeded_def)
qed

text \<open>
  The scripted tool prints an advisory line before the document: the count query returns 5.
\<close>

theorem queryCount_totalSize_witness:
  "queryCount scriptedCli [''data'', ''query'', ''-q'', ''SELECT Count() FROM Foo__c'', ''-o'', ''myorg'', ''-r'', ''json''] = Inr 5
   \<and> skipFirstLineIfNeeded (''Warning: update available from 2.60.13 to 2.61.8.'' @ CHR ''\<newline>'' # countOutput) = countOutput
   \<and> skipFirstLineIfNeeded countOutput = countOutput"
proof -
  let ?args = "[''data'', ''query'', ''-q'', ''SELECT Count() FROM Foo__c'', ''-o'', ''myorg'', ''-r'', ''json'']"
  let ?line = "''Warning: update available from 2.60.13 to 2.61.8.''"
  let ?out = "?line @ CHR ''\<newline>'' # countOutput"
  note t = queryCount_totalSize[of scriptedCli ?args ?out
      "[(''result'', JObject [(''totalSize'', JNumber 5)])]" "[(''totalSize'', JNumber 5)]" 5
      ?line countOutput countOutput]
  have h1: "runSf scriptedCli ?args = (True, ?out)" by code_simp
  have h2: "unmarshal scriptedCli (skipFirstLineIfNeeded ?out) = Some [(''result'', JObject [(''totalSize'', JNumber 5)])]"
    by code_simp
  have h3: "map_of [(''result'', JObject [(''totalSize'', JNumber (5::int))])] ''result'' = Some (JObject [(''totalSize'', JNumber 5)])"
    by code_simp
  have h4: "map_of [(''totalSize'', JNumber (5::int))] ''totalSize'' = Some (JNumber 5)"
    by code_simp
  have h5: "CHR ''\<newline>'' \<notin> set ?line" by code_simp
  have h6: "Contains ?line ''update available''" by code_simp
  have h7: "\<not> Contains countOutput [CHR 0xC2, CHR 0xBB]" by code_simp
  have h8: "\<not> Contains countOutput ''update available''" by code_simp
  have h9: "truncFloat scriptedCli 5 = 5" by code_simp
  have a: "queryCount scriptedCli ?args = Inr (truncFloat scriptedCli 5)"
    using t h1 h2 h3 h4 by blast
  have b: "skipFirstLineIfNeeded ?out = countOutput"
    using t h5 h6 by blast
  have c: "skipFirstLineIfNeeded countOutput = countOutput"
    using t h7 h8 by blast
  show ?thesis using a b c h9 by simp
qed

section \<open>The stages: which rows are processed\<close>

lemma Split_not_Nil: "Split s sep \<noteq> []"
  by (induction s) (auto split: list.splits)

lemma at_Split_0: "at (Split s sep) 0 = Inr (hd (Split s sep))"
  using Split_not_Nil[of s sep] by (cases "Split s sep") (simp_all add: at_def)

lemma at_1: "at xs (Suc 0) = (if 2 \<le> length xs then Inr (xs ! 1) else Inl IndexOutOfRange)"
  by (auto simp add: at_def)

lemma forEachLine_all:
  "forEachLine body lines = Inr records \<Longrightarrow> line \<in> set lines \<Longrightarrow> \<exists>rs. body line = Inr rs"
  by (induction lines arbitrary: records) (auto split: sum.splits)

lemma forEachLine_member:
  "forEachLine body lines = Inr records \<Longrightarrow> r \<in> set records \<Longrightarrow>
     \<exists>line\<in>set lines. \<exists>rs. body line = Inr rs \<and> r \<in> set rs"
proof (induction lines arbitrary: records)
  case Nil
  then show ?case by simp
next
  case (Cons l ls)
  then show ?case by (fastforce split: sum.splits)
qed

lemma queryCount_no_panic: "queryCount cli cmdArgs \<noteq> Inl IndexOutOfRange"
  by (simp add: queryCount_def split: prod.splits bool.splits option.splits json.splits)

lemma apiNameLine_panics:
  "apiNameLine cli developerName tableEnumOrId apiName org apiLine = Inl IndexOutOfRange
     \<longleftrightarrow> apiLine \<noteq> [] \<and> length (Split apiLine (CHR '','')) < 3"
proof (cases "apiLine = []")
  case True
  then show ?thesis by (simp add: apiNameLine_def)
next
  case False
  show ?thesis
  proof (cases "length (Split apiLine (CHR '','')) < 3")
    case True
    then show ?thesis using False by (simp add: apiNameLine_def Let_def at_def)
  next
    case long: False
    then show ?thesis using False queryCount_no_panic
      by (auto simp add: apiNameLine_def Let_def at_def split: sum.splits)
  qed
qed

lemma apiNameLine_developerName:
  "apiNameLine cli developerName tableEnumOrId apiName org apiLine = Inr rs \<Longrightarrow> r \<in> set rs
     \<Longrightarrow> DeveloperName r = developerName"
  by (auto simp add: apiNameLine_def Let_def split: if_splits sum.splits)

lemma processApiNames_developerName:
  "processApiNames cli apiNameCSV developerName tableEnumOrId apiName org = Inr rs \<Longrightarrow> r \<in> set rs
     \<Longrightarrow> DeveloperName r = developerName"
  unfolding processApiNames_def
  by (blast dest: forEachLine_member apiNameLine_developerName)

lemma developerNameLine_developerName:
  "developerNameLine cli developerName tableEnumOrId org devLine = Inr rs \<Longrightarrow> r \<in> set rs
     \<Longrightarrow> DeveloperName r = developerName"
  by (auto simp add: developerNameLine_def Let_def split: if_splits sum.splits
           dest: processApiNames_developerName)

lemma processDeveloperNames_developerName:
  "processDeveloperNames cli devNameCSV developerName tableEnumOrId org = Inr rs \<Longrightarrow> r \<in> set rs
     \<Longrightarrow> DeveloperName r = developerName"
  unfolding processDeveloperNames_def
  by (blast dest: forEachLine_member developerNameLine_developerName)

lemma deletedFieldLine_skips:
  "line = [] \<or> HasPrefix line ''DeveloperName'' \<Longrightarrow> deletedFieldLine cli org line = Inr []"
  by (auto simp add: deletedFieldLine_def)

lemma deletedFieldLine_no_suffix:
  assumes "\<not> HasSuffix (hd (Split line (CHR '',''))) ''_del''"
  shows "deletedFieldLine cli org line =
           (if line = [] \<or> HasPrefix line ''DeveloperName'' \<or> 2 \<le> length (Split line (CHR '',''))
            then Inr [] else Inl IndexOutOfRange)"
  using assms by (auto simp add: deletedFieldLine_def Let_def at_Split_0 at_1)

lemma deletedFieldLine_short:
  assumes "line \<noteq> []" "\<not> HasPrefix line ''DeveloperName''" "length (Split line (CHR '','')) < 2"
  shows "deletedFieldLine cli org line = Inl IndexOutOfRange"
  using assms by (simp add: deletedFieldLine_def Let_def at_Split_0 at_1)

lemma developerNameLine_short:
  assumes "devLine \<noteq> []" "length (Split devLine (CHR '','')) < 2"
  shows "developerNameLine cli developerName tableEnumOrId org devLine = Inl IndexOutOfRange"
  using assms by (simp add: developerNameLine_def Let_def at_def)

lemma deletedFieldLine_records:
  assumes "deletedFieldLine cli org line = Inr rs" "r \<in> set rs"
  shows "line \<noteq> [] \<and> \<not> HasPrefix line ''DeveloperName'' \<and>
         HasSuffix (hd (Split line (CHR '',''))) ''_del'' \<and>
         DeveloperName r = hd (Split line (CHR '',''))"
proof -
  have a: "line \<noteq> [] \<and> \<not> HasPrefix line ''DeveloperName''"
    using assms deletedFieldLine_skips[of line cli org] by auto
  have b: "HasSuffix (hd (Split line (CHR '',''))) ''_del''"
  proof (rule ccontr)
    assume "\<not> HasSuffix (hd (Split line (CHR '',''))) ''_del''"
    from deletedFieldLine_no_suffix[OF this, of cli org] assms show False
      by (auto split: if_splits)
  qed
  have "DeveloperName r = hd (Split line (CHR '',''))"
    using assms a b
    by (auto simp add: deletedFieldLine_def Let_def at_Split_0 split: sum.splits if_splits
             dest: processDeveloperNames_developerName)
  then show ?thesis using a b by simp
qed

text \<open>
  The gate of the first stage, where it holds. A row of the deleted-fields table yields
  records only if the line is not empty, does not begin with \<open>DeveloperName\<close> and has a first
  field that ends with \<open>_del\<close>. An empty line and a line that begins with \<open>DeveloperName\<close> are
  skipped; so is a row of at least two fields whose first field lacks the suffix. Every
  record of a run comes from a row that passed these checks, and carries its first field as
  \<open>DeveloperName\<close>.
\<close>

lemma stageA_gate:
  "(deletedFieldLine cli org line = Inr records \<longrightarrow> records \<noteq> [] \<longrightarrow>
      line \<noteq> [] \<and> \<not> HasPrefix line ''DeveloperName'' \<and>
      HasSuffix (hd (Split line (CHR '',''))) ''_del'')
   \<and> (line = [] \<or> HasPrefix line ''DeveloperName'' \<longrightarrow> deletedFieldLine cli org line = Inr [])
   \<and> (\<not> HasSuffix (hd (Split line (CHR '',''))) ''_del'' \<longrightarrow> 2 \<le> length (Split line (CHR '','')) \<longrightarrow>
      deletedFieldLine cli org line = Inr [])
   \<and> (processDeletedFields cli deletedFieldsCSV org = Inr deleteCounts \<longrightarrow>
      (\<forall>r\<in>set deleteCounts. \<exists>row\<in>set (Split deletedFieldsCSV (CHR ''\<newline>'')).
         row \<noteq> [] \<and> \<not> HasPrefix row ''DeveloperName'' \<and>
         HasSuffix (hd (Split row (CHR '',''))) ''_del'' \<and>
         DeveloperName r = hd (Split row (CHR '',''))))"
proof -
  have c1: "deletedFieldLine cli org line = Inr records \<longrightarrow> records \<noteq> [] \<longrightarrow>
      line \<noteq> [] \<and> \<not> HasPrefix line ''DeveloperName'' \<and>
      HasSuffix (hd (Split line (CHR '',''))) ''_del''"
  proof (intro impI)
    assume run: "deletedFieldLine cli org line = Inr records" and "records \<noteq> []"
    then obtain r where "r \<in> set records"
      by (cases records) auto
    from deletedFieldLine_records[OF run this]
    show "line \<noteq> [] \<and> \<not> HasPrefix line ''DeveloperName'' \<and>
      HasSuffix (hd (Split line (CHR '',''))) ''_del''"
      by simp
  qed
  have c2: "line = [] \<or> HasPrefix line ''DeveloperName'' \<longrightarrow> deletedFieldLine cli org line = Inr []"
    using deletedFieldLine_skips[of line cli org] by blast
  have c3: "\<not> HasSuffix (hd (Split line (CHR '',''))) ''_del'' \<longrightarrow> 2 \<le> length (Split line (CHR '','')) \<longrightarrow>
      deletedFieldLine cli org line = Inr []"
    by (simp add: deletedFieldLine_no_suffix)
  have c4: "processDeletedFields cli deletedFieldsCSV org = Inr deleteCounts \<longrightarrow>
      (\<forall>r\<in>set deleteCounts. \<exists>row\<in>set (Split deletedFieldsCSV (CHR ''\<newline>'')).
         row \<noteq> [] \<and> \<not> HasPrefix row ''DeveloperName'' \<and>
         HasSuffix (hd (Split row (CHR '',''))) ''_del'' \<and>
         DeveloperName r = hd (Split row (CHR '','')))"
  proof (intro impI ballI)
    fix r
    assume "processDeletedFields cli deletedFieldsCSV org = Inr deleteCounts" "r \<in> set deleteCounts"
    then obtain row rs where row: "row \<in> set (Split deletedFieldsCSV (CHR ''\<newline>''))"
      and run: "deletedFieldLine cli org row = Inr rs" and r: "r \<in> set rs"
      unfolding processDeletedFields_def by (blast dest: forEachLine_member)
    from deletedFieldLine_records[OF run r] row
    show "\<exists>row\<in>set (Split deletedFieldsCSV (CHR ''\<newline>'')).
         row \<noteq> [] \<and> \<not> HasPrefix row ''DeveloperName'' \<and>
         HasSuffix (hd (Split row (CHR '',''))) ''_del'' \<and>
         DeveloperName r = hd (Split row (CHR '',''))"
      by (rule_tac x = row in bexI) simp_all
  qed
  show ?thesis by (rule conjI[OF c1 conjI[OF c2 conjI[OF c3 c4]]])
qed

text \<open>
  The table \<open>table1\<close>: the header and the row \<open>Qux,Account\<close> are skipped, the row of \<open>Bar_del\<close>
  gives the one record of the run.
\<close>

lemma stageA_gate_example:
  "HasSuffix (hd (Split ''Bar_del,01I000000000001'' (CHR '',''))) ''_del''
   \<and> deletedFieldLine scriptedCli ''myorg'' ''Bar_del,01I000000000001'' = Inr [recBar]
   \<and> deletedFieldLine scriptedCli ''myorg'' ''DeveloperName,TableEnumOrId'' = Inr []
   \<and> deletedFieldLine scriptedCli ''myorg'' ''Qux,Account'' = Inr []
   \<and> processDeletedFields scriptedCli table1 ''myorg'' = Inr [recBar]
   \<and> (\<exists>row\<in>set (Split table1 (CHR ''\<newline>'')).
         row \<noteq> [] \<and> \<not> HasPrefix row ''DeveloperName'' \<and>
         HasSuffix (hd (Split row (CHR '',''))) ''_del'' \<and>
         DeveloperName recBar = hd (Split row (CHR '','')))"
proof -
  have r1: "deletedFieldLine scriptedCli ''myorg'' ''Bar_del,01I000000000001'' = Inr [recBar]"
    by code_simp
  have n1: "[recBar] \<noteq> []"
    by simp
  have h2: "''DeveloperName,TableEnumOrId'' = [] \<or>
            HasPrefix ''DeveloperName,TableEnumOrId'' ''DeveloperName''"
    by code_simp
  have h3: "\<not> HasSuffix (hd (Split ''Qux,Account'' (CHR '',''))) ''_del''"
    by code_simp
  have h3': "2 \<le> length (Split ''Qux,Account'' (CHR '',''))"
    by code_simp
  have r4: "processDeletedFields scriptedCli table1 ''myorg'' = Inr [recBar]"
    by code_simp
  have m: "recBar \<in> set [recBar]"
    by simp
  note g = stageA_gate[where cli = scriptedCli and org = "''myorg''"
      and deletedFieldsCSV = table1 and deleteCounts = "[recBar]"]
  note a = g[where line = "''Bar_del,01I000000000001''" and records = "[recBar]",
      THEN conjunct1, rule_format, OF r1 n1, THEN conjunct2, THEN conjunct2]
  note b = g[where line = "''DeveloperName,TableEnumOrId''",
      THEN conjunct2, THEN conjunct1, rule_format, OF h2]
  note c = g[where line = "''Qux,Account''",
      THEN conjunct2, THEN conjunct2, THEN conjunct1, rule_format, OF h3 h3']
  note d = g[THEN conjunct2, THEN conjunct2, THEN conjunct2, rule_format, OF r4 m]
  show ?thesis
    by (rule conjI[OF a conjI[OF r1 conjI[OF b conjI[OF c conjI[OF r4 d]]]]])
qed

text \<open>
  C4. The code sets out to do what the claim says: the branch for a first field without the
  suffix logs "Skipping non-deleted field", carries the comment \<open>// Skip non-deleted fields\<close>
  and ends in \<open>continue\<close>, and the branch before it skips a line without indexing it. But the
  call of \<open>log.Printf\<close> on line 160 reads \<open>data[1]\<close> for its message. The row \<open>Qux\<close>, which
  has no comma and which \<open>extractCSVData\<close> lets through after the header, lacks the suffix
  and is not skipped: the index is out of range and the run ends there.
\<close>

theorem short_row_not_skipped:
  "\<not> HasSuffix (hd (Split ''Qux'' (CHR '',''))) ''_del''
   \<and> deletedFieldLine scriptedCli ''myorg'' ''Qux'' = Inl IndexOutOfRange
   \<and> extractCSVData ''Querying Data... done\<newline>DeveloperName,TableEnumOrId\<newline>Qux\<newline>'' =
       ''DeveloperName,TableEnumOrId\<newline>Qux\<newline>''
   \<and> processDeletedFields scriptedCli ''DeveloperName,TableEnumOrId\<newline>Qux\<newline>'' ''myorg'' =
       Inl IndexOutOfRange"
  by (intro conjI; code_simp)

text \<open>
  C9. No stage checks the number of fields before it indexes them. A row that is read and
  has too few fields ends the run with an index out of range: fewer than two fields in a
  row of the deleted-fields table that is neither empty nor a header, fewer than two in a
  row of the developer names that is not empty, fewer than three in a row of the API names
  that is not empty (and this last stage panics in no other case). So a stage that returns
  has met, in every such row of its table, that number of fields. The eligible row
  \<open>Foo_del\<close>, with no comma, is a row that fails.
\<close>

theorem stage_rows_need_fields:
  "(line \<noteq> [] \<longrightarrow> \<not> HasPrefix line ''DeveloperName'' \<longrightarrow> length (Split line (CHR '','')) < 2 \<longrightarrow>
      deletedFieldLine cli org line = Inl IndexOutOfRange)
   \<and> (devLine \<noteq> [] \<longrightarrow> length (Split devLine (CHR '','')) < 2 \<longrightarrow>
      developerNameLine cli developerName tableEnumOrId org devLine = Inl IndexOutOfRange)
   \<and> (apiNameLine cli developerName tableEnumOrId apiName org apiLine = Inl IndexOutOfRange
      \<longleftrightarrow> apiLine \<noteq> [] \<and> length (Split apiLine (CHR '','')) < 3)
   \<and> (processDeletedFields cli deletedFieldsCSV org = Inr recordsA \<longrightarrow>
      (\<forall>row\<in>set (Split deletedFieldsCSV (CHR ''\<newline>'')).
         row \<noteq> [] \<and> \<not> HasPrefix row ''DeveloperName'' \<longrightarrow> 2 \<le> length (Split row (CHR '',''))))
   \<and> (processDeveloperNames cli devNameCSV developerName tableEnumOrId org = Inr recordsB \<longrightarrow>
      (\<forall>row\<in>set (Split devNameCSV (CHR ''\<newline>'')).
         row \<noteq> [] \<longrightarrow> 2 \<le> length (Split row (CHR '',''))))
   \<and> (processApiNames cli apiNameCSV developerName tableEnumOrId apiName org = Inr recordsC \<longrightarrow>
      (\<forall>row\<in>set (Split apiNameCSV (CHR ''\<newline>'')).
         row \<noteq> [] \<longrightarrow> 3 \<le> length (Split row (CHR '',''))))
   \<and> deletedFieldLine cli org ''Foo_del'' = Inl IndexOutOfRange"
proof (intro conjI impI ballI)
  assume "line \<noteq> []" "\<not> HasPrefix line ''DeveloperName''" "length (Split line (CHR '','')) < 2"
  then show "deletedFieldLine cli org line = Inl IndexOutOfRange"
    by (rule deletedFieldLine_short)
next
  assume "devLine \<noteq> []" "length (Split devLine (CHR '','')) < 2"
  then show "developerNameLine cli developerName tableEnumOrId org devLine = Inl IndexOutOfRange"
    by (rule developerNameLine_short)
next
  show "apiNameLine cli developerName tableEnumOrId apiName org apiLine = Inl IndexOutOfRange
      \<longleftrightarrow> apiLine \<noteq> [] \<and> length (Split apiLine (CHR '','')) < 3"
    by (rule apiNameLine_panics)
next
  fix row
  assume run: "processDeletedFields cli deletedFieldsCSV org = Inr recordsA"
    and row: "row \<in> set (Split deletedFieldsCSV (CHR ''\<newline>''))"
    and ne: "row \<noteq> [] \<and> \<not> HasPrefix row ''DeveloperName''"
  from run row obtain rs where ok: "deletedFieldLine cli org row = Inr rs"
    unfolding processDeletedFields_def by (blast dest: forEachLine_all)
  show "2 \<le> length (Split row (CHR '',''))"
  proof (rule ccontr)
    assume "\<not> 2 \<le> length (Split row (CHR '',''))"
    then have "deletedFieldLine cli org row = Inl IndexOutOfRange"
      using ne by (simp add: deletedFieldLine_short)
    then show False using ok by simp
  qed
next
  fix row
  assume run: "processDeveloperNames cli devNameCSV developerName tableEnumOrId org = Inr recordsB"
    and row: "row \<in> set (Split devNameCSV (CHR ''\<newline>''))"
    and ne: "row \<noteq> []"
  from run row obtain rs where ok: "developerNameLine cli developerName tableEnumOrId org row = Inr rs"
    unfolding processDeveloperNames_def by (blast dest: forEachLine_all)
  show "2 \<le> length (Split row (CHR '',''))"
  proof (rule ccontr)
    assume "\<not> 2 \<le> length (Split row (CHR '',''))"
    then have "developerNameLine cli developerName tableEnumOrId org row = Inl IndexOutOfRange"
      using ne by (simp add: developerNameLine_short)
    then show False using ok by simp
  qed
next
  fix row
  assume run: "processApiNames cli apiNameCSV developerName tableEnumOrId apiName org = Inr recordsC"
    and row: "row \<in> set (Split apiNameCSV (CHR ''\<newline>''))"
    and ne: "row \<noteq> []"
  from run row obtain rs where ok: "apiNameLine cli developerName tableEnumOrId apiName org row = Inr rs"
    unfolding processApiNames_def by (blast dest: forEachLine_all)
  show "3 \<le> length (Split row (CHR '',''))"
  proof (rule ccontr)
    assume "\<not> 3 \<le> length (Split row (CHR '',''))"
    then have "apiNameLine cli developerName tableEnumOrId apiName org row = Inl IndexOutOfRange"
      using ne by (simp add: apiNameLine_panics)
    then show False using ok by simp
  qed
next
  show "deletedFieldLine cli org ''Foo_del'' = Inl IndexOutOfRange"
    by (rule deletedFieldLine_short) (simp_all add: HasPrefix_def)
qed

theorem stage_rows_need_fields_witness:
  "deletedFieldLine scriptedCli ''myorg'' ''Foo_del'' = Inl IndexOutOfRange
   \<and> developerNameLine scriptedCli ''Bar_del'' ''01I000000000001'' ''myorg'' ''Foo'' = Inl IndexOutOfRange
   \<and> apiNameLine scriptedCli ''Bar_del'' ''01I000000000001'' ''Foo'' ''myorg'' ''0Bb,Foo'' =
       Inl IndexOutOfRange
   \<and> 2 \<le> length (Split ''Bar_del,01I000000000001'' (CHR '',''))
   \<and> 2 \<le> length (Split ''0Aa,Foo'' (CHR '',''))
   \<and> 3 \<le> length (Split ''0Bb,Foo,Foo__c'' (CHR '',''))"
proof -
  let ?devCSV = "''Id,DeveloperName\<newline>0Aa,Foo\<newline>''"
  let ?apiCSV = "''Id,DeveloperName,QualifiedApiName\<newline>0Bb,Foo,Foo__c\<newline>''"
  note g = stage_rows_need_fields[where cli = scriptedCli and org = "''myorg''"
      and developerName = "''Bar_del''" and tableEnumOrId = "''01I000000000001''"
      and apiName = "''Foo''" and line = "''Foo_del''" and devLine = "''Foo''"
      and apiLine = "''0Bb,Foo''" and deletedFieldsCSV = table1 and recordsA = "[recBar]"
      and devNameCSV = ?devCSV and recordsB = "[recBar]"
      and apiNameCSV = ?apiCSV and recordsC = "[recBar]"]
  have a1: "''Foo_del'' \<noteq> []" by simp
  have a2: "\<not> HasPrefix ''Foo_del'' ''DeveloperName''" by code_simp
  have a3: "length (Split ''Foo_del'' (CHR '','')) < 2" by code_simp
  have b1: "''Foo'' \<noteq> []" by simp
  have b2: "length (Split ''Foo'' (CHR '','')) < 2" by code_simp
  have c1: "''0Bb,Foo'' \<noteq> [] \<and> length (Split ''0Bb,Foo'' (CHR '','')) < 3" by code_simp
  have d1: "processDeletedFields scriptedCli table1 ''myorg'' = Inr [recBar]" by code_simp
  have d2: "''Bar_del,01I000000000001'' \<in> set (Split table1 (CHR ''\<newline>''))" by code_simp
  have d3: "''Bar_del,01I000000000001'' \<noteq> [] \<and>
            \<not> HasPrefix ''Bar_del,01I000000000001'' ''DeveloperName''" by code_simp
  have e1: "processDeveloperNames scriptedCli ?devCSV ''Bar_del'' ''01I000000000001'' ''myorg'' =
              Inr [recBar]" by code_simp
  have e2: "''0Aa,Foo'' \<in> set (Split ?devCSV (CHR ''\<newline>''))" by code_simp
  have e3: "''0Aa,Foo'' \<noteq> []" by simp
  have f1: "processApiNames scriptedCli ?apiCSV ''Bar_del'' ''01I000000000001'' ''Foo'' ''myorg'' =
              Inr [recBar]" by code_simp
  have f2: "''0Bb,Foo,Foo__c'' \<in> set (Split ?apiCSV (CHR ''\<newline>''))" by code_simp
  have f3: "''0Bb,Foo,Foo__c'' \<noteq> []" by simp
  note a = g[THEN conjunct1, rule_format, OF a1 a2 a3]
  note b = g[THEN conjunct2, THEN conjunct1, rule_format, OF b1 b2]
  note c = g[THEN conjunct2, THEN conjunct2, THEN conjunct1, THEN iffD2, OF c1]
  note d = g[THEN conjunct2, THEN conjunct2, THEN conjunct2, THEN conjunct1, rule_format,
      OF d1 d2 d3]
  note e = g[THEN conjunct2, THEN conjunct2, THEN conjunct2, THEN conjunct2, THEN conjunct1,
      rule_format, OF e1 e2 e3]
  note f = g[THEN conjunct2, THEN conjunct2, THEN conjunct2, THEN conjunct2, THEN conjunct2,
      THEN conjunct1, rule_format, OF f1 f2 f3]
  show ?thesis
    by (rule conjI[OF a conjI[OF b conjI[OF c conjI[OF d conjI[OF e f]]]]])
qed

text \<open>
  C10. The header check of the first stage is \<open>strings.HasPrefix(line, "DeveloperName")\<close>:
  every line that begins with \<open>DeveloperName\<close> is skipped. The row
  \<open>DeveloperNameX_del,01I000000000001\<close> has a first field that ends with \<open>_del\<close>, and a table
  of this one row gives no record, whatever the tool would answer.
\<close>

theorem header_check_by_prefix:
  "(HasPrefix line ''DeveloperName'' \<longrightarrow> deletedFieldLine cli org line = Inr [])
   \<and> HasSuffix (hd (Split ''DeveloperNameX_del,01I000000000001'' (CHR '',''))) ''_del''
   \<and> processDeletedFields cli ''DeveloperNameX_del,01I000000000001'' org = Inr []"
proof (intro conjI impI)
  assume "HasPrefix line ''DeveloperName''"
  then show "deletedFieldLine cli org line = Inr []" by (simp add: deletedFieldLine_skips)
next
  show "HasSuffix (hd (Split ''DeveloperNameX_del,01I000000000001'' (CHR '',''))) ''_del''"
    by code_simp
next
  have "Split ''DeveloperNameX_del,01I000000000001'' (CHR ''\<newline>'') = [''DeveloperNameX_del,01I000000000001'']"
    by code_simp
  moreover have "deletedFieldLine cli org ''DeveloperNameX_del,01I000000000001'' = Inr []"
    by (rule deletedFieldLine_skips) (simp add: HasPrefix_def)
  ultimately show "processDeletedFields cli ''DeveloperNameX_del,01I000000000001'' org = Inr []"
    by (simp add: processDeletedFields_def)
qed

theorem header_check_by_prefix_witness:
  "deletedFieldLine scriptedCli ''myorg'' ''DeveloperNameX_del,01I000000000001'' = Inr []
   \<and> HasSuffix (hd (Split ''DeveloperNameX_del,01I000000000001'' (CHR '',''))) ''_del''
   \<and> processDeletedFields scriptedCli ''DeveloperNameX_del,01I000000000001'' ''myorg'' = Inr []"
proof -
  note g = header_check_by_prefix[where cli = scriptedCli and org = "''myorg''"
      and line = "''DeveloperNameX_del,01I000000000001''"]
  have h: "HasPrefix ''DeveloperNameX_del,01I000000000001'' ''DeveloperName''"
    by code_simp
  note a = g[THEN conjunct1, rule_format, OF h]
  show ?thesis
    by (rule conjI[OF a g[THEN conjunct2]])
qed

end
